theory Spec2Isabelle
  imports Complex_Main "HOL-Library.Word" "HOL-Library.AList"
begin

section \<open>Strings of the JavaScript runtime\<close>

text \<open>
  A JavaScript string is a finite sequence of 16-bit code units. String literals of
  the source are written \<open>js ''...''\<close>: every ASCII character is the code unit of the
  same number.
\<close>

type_synonym jschar = "16 word"
type_synonym jsstring = "jschar list"

definition js :: "string \<Rightarrow> jsstring" where
  "js s = map of_char s"

definition LF :: jschar where
  "LF = 0x0A"

definition SP :: jschar where
  "SP = 0x20"

definition ESC :: jschar where
  "ESC = 0x1B"

text \<open>
  The class \<open>\w\<close> of a regular expression without the \<open>u\<close> and \<open>i\<close> flags:
  \<open>[A-Za-z0-9_]\<close>. The class \<open>\W\<close> is its complement among all code units.
\<close>

definition is_word_char :: "jschar \<Rightarrow> bool" where
  "is_word_char c \<longleftrightarrow>
     (0x30 \<le> c \<and> c \<le> 0x39) \<or> (0x41 \<le> c \<and> c \<le> 0x5A) \<or> c = 0x5F \<or> (0x61 \<le> c \<and> c \<le> 0x7A)"

definition is_ascii :: "jschar \<Rightarrow> bool" where
  "is_ascii c \<longleftrightarrow> c < 0x80"

text \<open>
  \<open>String.prototype.toLowerCase\<close>. On ASCII it maps \<open>A..Z\<close> to \<open>a..z\<close> and nothing
  else. Outside ASCII exactly two code points have a lower-case mapping that contains
  ASCII: U+212A (Kelvin sign) becomes \<open>k\<close>, and U+0130 (capital I with dot above)
  becomes \<open>i\<close> followed by U+0307. Every other mapping of the Unicode tables sends
  code units outside ASCII to code units outside ASCII; the model leaves those units
  as they are. They are \<open>\W\<close> before and after the mapping, and the program looks at a
  lower-cased string only through \<open>split(/\W+/)\<close> and through tokens, which are ASCII,
  so no token and no table entry depends on them.
\<close>

definition lower_unit :: "jschar \<Rightarrow> jsstring" where
  "lower_unit c =
     (if 0x41 \<le> c \<and> c \<le> 0x5A then [c + 0x20]
      else if c = 0x212A then [0x6B]
      else if c = 0x0130 then [0x69, 0x0307]
      else [c])"

definition toLowerCase :: "jsstring \<Rightarrow> jsstring" where
  "toLowerCase s = concat (map lower_unit s)"

subsection \<open>Splitting\<close>

text \<open>
  \<open>s.split(/\W+/)\<close>: the pieces of \<open>s\<close> between the maximal runs of \<open>\W\<close> code units,
  in order. The first argument is the piece that is being read. A run at the start or
  at the end of \<open>s\<close> leaves an empty piece there, and the empty string gives the one
  piece \<open>""\<close>.
\<close>

function split_nonword_from :: "jsstring \<Rightarrow> jsstring \<Rightarrow> jsstring list" where
  "split_nonword_from piece [] = [piece]"
| "split_nonword_from piece (c # cs) =
     (if is_word_char c then split_nonword_from (piece @ [c]) cs
      else piece # split_nonword_from [] (dropWhile (\<lambda>d. \<not> is_word_char d) cs))"
  by pat_completeness auto
termination
  by (relation "measure (\<lambda>(piece, s). length s)")
     (auto simp: length_dropWhile_le le_imp_less_Suc)

definition split_nonword :: "jsstring \<Rightarrow> jsstring list" where
  "split_nonword s = split_nonword_from [] s"

text \<open>\<open>.filter(Boolean)\<close> on an array of strings keeps the strings that are not empty.\<close>

definition filter_Boolean :: "jsstring list \<Rightarrow> jsstring list" where
  "filter_Boolean ws = filter (\<lambda>w. w \<noteq> []) ws"

text \<open>The expression \<open>s.split(/\W+/).filter(Boolean)\<close>, which both functions use.\<close>

definition tokenize :: "jsstring \<Rightarrow> jsstring list" where
  "tokenize s = filter_Boolean (split_nonword s)"

text \<open>\<open>s.split('\n')\<close>: the pieces of \<open>s\<close> between line feeds; \<open>""\<close> gives \<open>[""]\<close>.\<close>

fun split_lines_from :: "jsstring \<Rightarrow> jsstring \<Rightarrow> jsstring list" where
  "split_lines_from piece [] = [piece]"
| "split_lines_from piece (c # cs) =
     (if c = LF then piece # split_lines_from [] cs
      else split_lines_from (piece @ [c]) cs)"

definition split_lines :: "jsstring \<Rightarrow> jsstring list" where
  "split_lines s = split_lines_from [] s"

text \<open>\<open>ws.join(sep)\<close> for an array of strings.\<close>

fun join :: "jsstring \<Rightarrow> jsstring list \<Rightarrow> jsstring" where
  "join sep [] = []"
| "join sep [w] = w"
| "join sep (w # v # ws) = w @ sep @ join sep (v # ws)"

section \<open>Values of the JavaScript runtime\<close>

text \<open>
  A Number is a finite value, \<open>NaN\<close> or an infinity. A finite double is a rational
  number, so the finite values are taken from \<open>rat\<close>; the negative zero is not told
  apart from zero, which none of \<open>===\<close>, \<open>>=\<close>, \<open><=\<close>, \<open>||\<close> and \<open>+\<close> does here either.
\<close>

datatype jsnumber = Finite rat | NaN | PosInfinity | NegInfinity

text \<open>
  The primitive values that a table holds, and the values that a property lookup on a
  table can give: a primitive, or one of the objects that a plain object inherits from
  \<open>Object.prototype\<close> (a built-in function, named by its \<open>name\<close>, or
  \<open>Object.prototype\<close> itself).
\<close>

datatype jsprim = Undefined | Null | Boolean bool | Number jsnumber | String jsstring

datatype jsval = Prim jsprim | NativeFunction jsstring | ObjectPrototype

subsection \<open>Conversions\<close>

text \<open>\<open>ToBoolean\<close>, as \<open>||\<close> and \<open>filter(Boolean)\<close> apply it.\<close>

fun to_boolean :: "jsval \<Rightarrow> bool" where
  "to_boolean (Prim Undefined) = False"
| "to_boolean (Prim Null) = False"
| "to_boolean (Prim (Boolean b)) = b"
| "to_boolean (Prim (Number n)) = (n \<noteq> Finite 0 \<and> n \<noteq> NaN)"
| "to_boolean (Prim (String s)) = (s \<noteq> [])"
| "to_boolean (NativeFunction f) = True"
| "to_boolean ObjectPrototype = True"

text \<open>
  \<open>ToPrimitive\<close>: a built-in function converts to its source text and
  \<open>Object.prototype\<close> to \<open>"[object Object]"\<close> (with either hint: \<open>valueOf\<close> returns the
  object itself, so \<open>toString\<close> decides).
\<close>

fun to_primitive :: "jsval \<Rightarrow> jsprim" where
  "to_primitive (Prim p) = p"
| "to_primitive (NativeFunction f) = String (js ''function '' @ f @ js ''() { [native code] }'')"
| "to_primitive ObjectPrototype = String (js ''[object Object]'')"

text \<open>\<open>StrWhiteSpaceChar\<close>: the white space and line terminator code points.\<close>

definition is_str_white_space :: "jschar \<Rightarrow> bool" where
  "is_str_white_space c \<longleftrightarrow>
     c \<in> {0x09, 0x0A, 0x0B, 0x0C, 0x0D, 0x20, 0xA0, 0x1680, 0x2028, 0x2029, 0x202F, 0x205F,
          0x3000, 0xFEFF} \<or> (0x2000 \<le> c \<and> c \<le> 0x200A)"

definition trim_string :: "jsstring \<Rightarrow> jsstring" where
  "trim_string s = rev (dropWhile is_str_white_space (rev (dropWhile is_str_white_space s)))"

definition digit_in :: "int \<Rightarrow> jschar \<Rightarrow> int option" where
  "digit_in radix c =
     (let d = (if 0x30 \<le> c \<and> c \<le> 0x39 then uint c - 0x30
               else if 0x61 \<le> c \<and> c \<le> 0x66 then uint c - 0x61 + 10
               else if 0x41 \<le> c \<and> c \<le> 0x46 then uint c - 0x41 + 10
               else radix)
      in if d < radix then Some d else None)"

fun digits_from :: "int \<Rightarrow> int \<Rightarrow> jsstring \<Rightarrow> int option" where
  "digits_from radix acc [] = Some acc"
| "digits_from radix acc (c # cs) =
     (case digit_in radix c of
        None \<Rightarrow> None
      | Some d \<Rightarrow> digits_from radix (acc * radix + d) cs)"

text \<open>A sequence of one or more digits of the radix, read as a natural number.\<close>

definition digits :: "int \<Rightarrow> jsstring \<Rightarrow> int option" where
  "digits radix s = (if s = [] then None else digits_from radix 0 s)"

text \<open>\<open>ExponentPart\<close> after its \<open>e\<close> or \<open>E\<close>: an optional sign and decimal digits.\<close>

definition exponent_part :: "jsstring \<Rightarrow> int option" where
  "exponent_part s =
     (case s of
        [] \<Rightarrow> None
      | c # cs \<Rightarrow>
          if c = 0x2B then digits 10 cs
          else if c = 0x2D then map_option uminus (digits 10 cs)
          else digits 10 s)"

text \<open>
  The mantissa of a decimal literal: digits, digits with a point and optional digits
  after it, or a point with digits after it. The result is the number that the digits
  write without the point, and the count of the digits after the point.
\<close>

definition mantissa :: "jsstring \<Rightarrow> (int \<times> nat) option" where
  "mantissa s =
     (let ip = takeWhile (\<lambda>c. c \<noteq> 0x2E) s; rest = dropWhile (\<lambda>c. c \<noteq> 0x2E) s
      in case rest of
           [] \<Rightarrow> map_option (\<lambda>i. (i, 0)) (digits 10 ip)
         | dot # fp \<Rightarrow>
             (case (if ip = [] then Some 0 else digits 10 ip,
                    if fp = [] \<and> ip \<noteq> [] then Some 0 else digits 10 fp) of
                (Some i, Some f) \<Rightarrow> Some (i * 10 ^ length fp + f, length fp)
              | _ \<Rightarrow> None))"

subsection \<open>Rounding to a double\<close>

text \<open>
  The Number value of a mathematical value is the double nearest to it, the one with
  the even significand when two are equally near, and an infinity from
  \<open>2^1024 - 2^970\<close> on. \<open>nearest_double a b\<close> is that Number for the quotient
  \<open>a / b\<close> of a natural number \<open>a\<close> and a positive \<open>b\<close>: with \<open>2^e \<le> a / b < 2^(e+1)\<close>,
  the quotient is rounded to a multiple of \<open>2^(e - 52)\<close>, and of \<open>2^(-1074)\<close> below
  the normal range.
\<close>

function bit_length :: "int \<Rightarrow> nat" where
  "bit_length n = (if n \<le> 0 then 0 else Suc (bit_length (n div 2)))"
  by pat_completeness auto
termination
  by (relation "measure nat") auto

declare bit_length.simps [simp del]

definition round_half_even :: "int \<Rightarrow> int \<Rightarrow> int" where
  "round_half_even a b =
     (let q = a div b; r = a mod b
      in if 2 * r < b then q else if b < 2 * r then q + 1 else if even q then q else q + 1)"

definition nearest_double :: "int \<Rightarrow> int \<Rightarrow> jsnumber" where
  "nearest_double a b =
     (if a = 0 then Finite 0
      else
        let k = int (bit_length a) - int (bit_length b);
            e = (if (if 0 \<le> k then b * 2 ^ nat k \<le> a else b \<le> a * 2 ^ nat (- k)) then k
                 else k - 1);
            s = max e (- 1022) - 52;
            m = (if 0 \<le> s then round_half_even a (b * 2 ^ nat s)
                 else round_half_even (a * 2 ^ nat (- s)) b)
        in if 0 \<le> s then
             (if 2 ^ 1024 \<le> m * 2 ^ nat s then PosInfinity else Finite (of_int (m * 2 ^ nat s)))
           else Finite (of_int m / 2 ^ nat (- s)))"

text \<open>The Number value of \<open>n * 10^e\<close>.\<close>

definition decimal_double :: "int \<Rightarrow> int \<Rightarrow> jsnumber" where
  "decimal_double n e =
     (if 0 \<le> e then nearest_double (n * 10 ^ nat e) 1 else nearest_double n (10 ^ nat (- e)))"

text \<open>\<open>StrUnsignedDecimalLiteral\<close>: \<open>Infinity\<close>, or a mantissa with an optional exponent.\<close>

definition unsigned_decimal :: "jsstring \<Rightarrow> jsnumber option" where
  "unsigned_decimal s =
     (if s = js ''Infinity'' then Some PosInfinity
      else
        let m = takeWhile (\<lambda>c. c \<noteq> 0x65 \<and> c \<noteq> 0x45) s;
            rest = dropWhile (\<lambda>c. c \<noteq> 0x65 \<and> c \<noteq> 0x45) s
        in case rest of
             [] \<Rightarrow> map_option (\<lambda>(n, f). decimal_double n (- int f)) (mantissa m)
           | e # ex \<Rightarrow>
               (case (mantissa m, exponent_part ex) of
                  (Some (n, f), Some k) \<Rightarrow> Some (decimal_double n (k - int f))
                | _ \<Rightarrow> None))"

fun number_negate :: "jsnumber \<Rightarrow> jsnumber" where
  "number_negate (Finite r) = Finite (- r)"
| "number_negate NaN = NaN"
| "number_negate PosInfinity = NegInfinity"
| "number_negate NegInfinity = PosInfinity"

text \<open>
  \<open>StringToNumber\<close>: the string without the white space at its ends is empty (the
  value 0), a literal with one of the prefixes \<open>0x\<close>, \<open>0o\<close>, \<open>0b\<close> (in either case,
  without a sign), or a decimal literal with an optional sign; every other string
  gives \<open>NaN\<close>. The result is the mathematical value of the literal rounded to the
  nearest double, as V8 computes it for a literal of any length.
\<close>

definition StringToNumber :: "jsstring \<Rightarrow> jsnumber" where
  "StringToNumber s =
     (let t = trim_string s
      in if t = [] then Finite 0
         else if take 2 t = js ''0x'' \<or> take 2 t = js ''0X'' then
           (case digits 16 (drop 2 t) of Some n \<Rightarrow> nearest_double n 1 | None \<Rightarrow> NaN)
         else if take 2 t = js ''0o'' \<or> take 2 t = js ''0O'' then
           (case digits 8 (drop 2 t) of Some n \<Rightarrow> nearest_double n 1 | None \<Rightarrow> NaN)
         else if take 2 t = js ''0b'' \<or> take 2 t = js ''0B'' then
           (case digits 2 (drop 2 t) of Some n \<Rightarrow> nearest_double n 1 | None \<Rightarrow> NaN)
         else if hd t = 0x2B then
           (case unsigned_decimal (tl t) of Some n \<Rightarrow> n | None \<Rightarrow> NaN)
         else if hd t = 0x2D then
           (case unsigned_decimal (tl t) of Some n \<Rightarrow> number_negate n | None \<Rightarrow> NaN)
         else
           (case unsigned_decimal t of Some n \<Rightarrow> n | None \<Rightarrow> NaN))"

text \<open>\<open>ToNumber\<close> of a primitive.\<close>

fun to_number :: "jsprim \<Rightarrow> jsnumber" where
  "to_number Undefined = NaN"
| "to_number Null = Finite 0"
| "to_number (Boolean b) = Finite (if b then 1 else 0)"
| "to_number (Number n) = n"
| "to_number (String s) = StringToNumber s"

subsection \<open>Operators\<close>

text \<open>
  \<open>Number::lessThan\<close>: \<open>None\<close> is the result \<open>undefined\<close> of a comparison with \<open>NaN\<close>.
\<close>

fun number_lessThan :: "jsnumber \<Rightarrow> jsnumber \<Rightarrow> bool option" where
  "number_lessThan NaN y = None"
| "number_lessThan x NaN = None"
| "number_lessThan (Finite a) (Finite b) = Some (a < b)"
| "number_lessThan PosInfinity y = Some False"
| "number_lessThan x PosInfinity = Some True"
| "number_lessThan x NegInfinity = Some False"
| "number_lessThan NegInfinity y = Some True"

text \<open>
  \<open>x === n\<close>, \<open>x >= n\<close> and \<open>x <= n\<close> for a Number \<open>n\<close> on the right, as the source
  writes them. Strict equality holds for a Number of the same value only and converts
  nothing. The two comparisons convert \<open>x\<close> to a primitive and then to a Number, and
  are false when \<open>lessThan\<close> is true or undefined.
\<close>

definition strict_equals :: "jsval \<Rightarrow> jsnumber \<Rightarrow> bool" where
  "strict_equals x n =
     (case x of Prim (Number m) \<Rightarrow> m \<noteq> NaN \<and> n \<noteq> NaN \<and> m = n | _ \<Rightarrow> False)"

definition greater_equal :: "jsval \<Rightarrow> jsnumber \<Rightarrow> bool" where
  "greater_equal x n =
     (case number_lessThan (to_number (to_primitive x)) n of Some False \<Rightarrow> True | _ \<Rightarrow> False)"

definition less_equal :: "jsval \<Rightarrow> jsnumber \<Rightarrow> bool" where
  "less_equal x n =
     (case number_lessThan n (to_number (to_primitive x)) of Some False \<Rightarrow> True | _ \<Rightarrow> False)"

text \<open>\<open>x || y\<close>.\<close>

definition logical_or :: "jsval \<Rightarrow> jsval \<Rightarrow> jsval" where
  "logical_or x y = (if to_boolean x then x else y)"

text \<open>
  \<open>Number::add\<close>. The sum of two finite values is exact here; it is the sum of the
  doubles whenever it is an integer below \<open>2^53\<close>, which every count of this program
  is (a string has fewer code units than that).
\<close>

fun number_add :: "jsnumber \<Rightarrow> jsnumber \<Rightarrow> jsnumber" where
  "number_add NaN y = NaN"
| "number_add x NaN = NaN"
| "number_add (Finite a) (Finite b) = Finite (a + b)"
| "number_add PosInfinity NegInfinity = NaN"
| "number_add NegInfinity PosInfinity = NaN"
| "number_add PosInfinity y = PosInfinity"
| "number_add x PosInfinity = PosInfinity"
| "number_add NegInfinity y = NegInfinity"
| "number_add x NegInfinity = NegInfinity"

text \<open>
  \<open>x + 1\<close>: when the primitive of \<open>x\<close> is a string, the concatenation with \<open>"1"\<close>;
  the sum of the numbers otherwise. The result is a primitive in every case.
\<close>

definition add_one :: "jsval \<Rightarrow> jsprim" where
  "add_one x =
     (case to_primitive x of
        String s \<Rightarrow> String (s @ js ''1'')
      | p \<Rightarrow> Number (number_add (to_number p) (Finite 1)))"

subsection \<open>The other primitives\<close>






section \<open>Plain objects\<close>

text \<open>
  The object literal \<open>{}\<close> creates an object without own properties whose prototype is
  \<open>Object.prototype\<close>. An object of the model is the list of its own properties, in
  the order of their creation, with primitive values; its prototype is
  \<open>Object.prototype\<close> throughout, since the program never replaces it.
\<close>

type_synonym jsobject = "(jsstring \<times> jsprim) list"

definition object_prototype_methods :: "jsstring list" where
  "object_prototype_methods =
     [js ''__defineGetter__'', js ''__defineSetter__'', js ''hasOwnProperty'',
      js ''__lookupGetter__'', js ''__lookupSetter__'', js ''isPrototypeOf'',
      js ''propertyIsEnumerable'', js ''toString'', js ''valueOf'', js ''toLocaleString'']"

text \<open>The names of the properties that every plain object inherits.\<close>

definition object_prototype_names :: "jsstring list" where
  "object_prototype_names = js ''constructor'' # js ''__proto__'' # object_prototype_methods"

text \<open>
  A property read on \<open>Object.prototype\<close>: \<open>constructor\<close> is the function \<open>Object\<close>, the
  getter \<open>__proto__\<close> returns the prototype of the object that is read, and the other
  names are built-in functions of the same name.
\<close>

definition object_prototype_get :: "jsstring \<Rightarrow> jsval" where
  "object_prototype_get k =
     (if k = js ''constructor'' then NativeFunction (js ''Object'')
      else if k = js ''__proto__'' then ObjectPrototype
      else if k \<in> set object_prototype_methods then NativeFunction k
      else Prim Undefined)"

text \<open>\<open>obj[k]\<close>: the own property if there is one, the inherited one otherwise.\<close>

definition get_property :: "jsobject \<Rightarrow> jsstring \<Rightarrow> jsval" where
  "get_property obj k =
     (case map_of obj k of Some p \<Rightarrow> Prim p | None \<Rightarrow> object_prototype_get k)"

text \<open>
  \<open>obj[k] = p\<close> for a primitive \<open>p\<close>: an own property is overwritten in its place; the
  inherited setter \<open>__proto__\<close> ignores a value that is neither an object nor \<open>null\<close>
  and creates nothing; every other name becomes a new own property, the last one.
\<close>

definition set_property :: "jsobject \<Rightarrow> jsstring \<Rightarrow> jsprim \<Rightarrow> jsobject" where
  "set_property obj k p =
     (if k \<in> fst ` set obj then AList.update k p obj
      else if k = js ''__proto__'' then obj
      else obj @ [(k, p)])"

section \<open>Collaborators\<close>

datatype color = Blue | Green | Red

text \<open>The escape sequences \<open>ESC[34m\<close>, \<open>ESC[32m\<close>, \<open>ESC[31m\<close> and \<open>ESC[39m\<close>.\<close>

fun ansi_open :: "color \<Rightarrow> jsstring" where
  "ansi_open Blue = ESC # js ''[34m''"
| "ansi_open Green = ESC # js ''[32m''"
| "ansi_open Red = ESC # js ''[31m''"

definition ansi_close :: jsstring where
  "ansi_close = ESC # js ''[39m''"

text \<open>
  Modelled from the spec: the package \<open>chalk\<close> is a dependency and not part of the
  sources. Section 6 has each word wrapped in an ANSI colour escape sequence chosen by
  its bucket: \<open>chalk.blue\<close>, \<open>chalk.green\<close> and \<open>chalk.red\<close> put the opening
  sequence of their colour before the text and the closing sequence after it. (That is
  chalk with colour support on, for a text without escape sequences and line feeds, as
  every token is; with colour support off chalk returns the text as it is.)
\<close>

definition chalk :: "color \<Rightarrow> jsstring \<Rightarrow> jsstring" where
  "chalk c s = ansi_open c @ s @ ansi_close"

text \<open>
  The console is the list of the strings that \<open>console.log\<close> has printed so far, one
  per call, the oldest first.
\<close>

type_synonym console = "jsstring list"

definition console_log :: "jsstring \<Rightarrow> console \<Rightarrow> console" where
  "console_log s out = out @ [s]"

text \<open>
  The file system is the outcome of reading each path: the decoded content of the
  file, or the system error when the file is missing or unreadable.
\<close>

datatype io_error = ENOENT | EACCES

type_synonym filesystem = "jsstring \<Rightarrow> io_error + jsstring"

text \<open>
  Modelled from the spec: \<open>fs.readFileSync(path, 'utf8')\<close> belongs to the runtime. It
  returns the content of the file as a string, or throws when the file is missing or
  unreadable (section 4.5).
\<close>

definition readFileSync :: "filesystem \<Rightarrow> jsstring \<Rightarrow> io_error + jsstring" where
  "readFileSync fs path = fs path"

section \<open>The program\<close>

definition readFileContent :: "filesystem \<Rightarrow> io_error + jsstring" where
  "readFileContent fs = readFileSync fs (js ''declaration.txt'')"

text \<open>The statement \<open>wordCount[word] = (wordCount[word] || 0) + 1\<close>.\<close>

definition count_word :: "jsstring \<Rightarrow> jsobject \<Rightarrow> jsobject" where
  "count_word word wordCount =
     set_property wordCount word
       (add_one (logical_or (get_property wordCount word) (Prim (Number (Finite 0)))))"

definition getWordCounts :: "jsstring \<Rightarrow> jsobject" where
  "getWordCounts content =
     (let words = filter_Boolean (split_nonword (toLowerCase content))
      in fold count_word words [])"

definition colorWord :: "jsstring \<Rightarrow> jsval \<Rightarrow> jsstring" where
  "colorWord word count =
     (if strict_equals count (Finite 1) then chalk Blue word
      else if greater_equal count (Finite 2) \<and> less_equal count (Finite 5) then chalk Green word
      else chalk Red word)"


text \<open>The expression that the loop of \<open>printColoredLines\<close> builds for one line.\<close>

definition coloredLine :: "jsobject \<Rightarrow> jsstring \<Rightarrow> jsstring" where
  "coloredLine wordCount line =
     join [SP]
       (map (\<lambda>word. colorWord word (get_property wordCount (toLowerCase word)))
          (filter_Boolean (split_nonword line)))
     @ [SP]"

definition printColoredLines :: "jsstring \<Rightarrow> jsobject \<Rightarrow> console \<Rightarrow> console" where
  "printColoredLines content wordCount out =
     (let lines = take 15 (split_lines content)
      in fold (\<lambda>line. console_log (coloredLine wordCount line)) lines out)"

text \<open>
  \<open>processFile\<close> returns nothing; an exception of \<open>readFileContent\<close> leaves it at
  once, uncaught.
\<close>

definition processFile :: "filesystem \<Rightarrow> console \<Rightarrow> (io_error + unit) \<times> console" where
  "processFile fs out =
     (case readFileContent fs of
        Inl e \<Rightarrow> (Inl e, out)
      | Inr content \<Rightarrow> (Inr (), printColoredLines content (getWordCounts content) out))"

section \<open>Notions of the specification\<close>

text \<open>
  The glossary of the specification defines a token as a maximal run of word
  characters. \<open>word_runs\<close> lists the maximal runs of a string from left to right; it
  is written from that sentence, to be compared with the expression
  \<open>split(/\W+/).filter(Boolean)\<close> of the source.
\<close>

function word_runs :: "jsstring \<Rightarrow> jsstring list" where
  "word_runs [] = []"
| "word_runs (c # cs) =
     (if is_word_char c then takeWhile is_word_char (c # cs) # word_runs (dropWhile is_word_char cs)
      else word_runs cs)"
  by pat_completeness auto
termination
  by (relation "measure length") (auto simp: length_dropWhile_le le_imp_less_Suc)

text \<open>
  The colour buckets of section 3 and the colour that section 6 gives to each.
\<close>

datatype bucket = Rare | Common | Frequent

fun bucket_color :: "bucket \<Rightarrow> color" where
  "bucket_color Rare = Blue"
| "bucket_color Common = Green"
| "bucket_color Frequent = Red"

text \<open>
  Section 8 speaks of stripping all colour wrapping from a rendered line:
  \<open>strip_color\<close> removes every occurrence of the four escape sequences that
  \<open>chalk\<close> writes and keeps every other code unit.
\<close>

definition color_markers :: "jsstring list" where
  "color_markers = [ansi_open Blue, ansi_open Green, ansi_open Red, ansi_close]"

fun strip_color :: "jsstring \<Rightarrow> jsstring" where
  "strip_color [] = []"
| "strip_color (c # cs) =
     (if take 5 (c # cs) \<in> set color_markers then strip_color (drop 4 cs)
      else c # strip_color cs)"

text \<open>
  The lower-case mapping of one ASCII code unit, and the strings on which
  \<open>toLowerCase\<close> is this mapping unit by unit: those without U+212A and U+0130.
\<close>

definition lower_ascii :: "jschar \<Rightarrow> jschar" where
  "lower_ascii c = (if 0x41 \<le> c \<and> c \<le> 0x5A then c + 0x20 else c)"

definition unit_wise :: "jsstring \<Rightarrow> bool" where
  "unit_wise s \<longleftrightarrow> list_all (\<lambda>c. c \<noteq> 0x212A \<and> c \<noteq> 0x0130) s"

text \<open>
  A table holds the counts \<open>f\<close> when its keys are distinct, the words of count zero
  have no own property and every other word has its count as a Number.
\<close>

definition holds_counts :: "jsobject \<Rightarrow> (jsstring \<Rightarrow> nat) \<Rightarrow> bool" where
  "holds_counts t f \<longleftrightarrow>
     distinct (map fst t) \<and>
     (\<forall>k. map_of t k = (if f k = 0 then None else Some (Number (Finite (of_nat (f k))))))"

text \<open>Three files for the examples: of twenty lines, of sixteen lines, of three lines.\<close>

definition twenty_lines :: jsstring where
  "twenty_lines = js ''l1\<newline>l2\<newline>l3\<newline>l4\<newline>l5\<newline>l6\<newline>l7\<newline>l8\<newline>l9\<newline>l10\<newline>l11\<newline>l12\<newline>l13\<newline>l14\<newline>l15\<newline>l16\<newline>l17\<newline>l18\<newline>l19\<newline>l20''"

definition sixteen_lines :: jsstring where
  "sixteen_lines = js ''l1\<newline>l2\<newline>l3\<newline>l4\<newline>l5\<newline>l6\<newline>l7\<newline>l8\<newline>l9\<newline>l10\<newline>l11\<newline>l12\<newline>l13\<newline>l14\<newline>l15\<newline>another end''"

definition three_lines :: jsstring where
  "three_lines = js ''one\<newline>two\<newline>three''"

text \<open>The line \<open>a\<close>, Kelvin sign (U+212A), \<open>b\<close>.\<close>

definition kelvin_line :: jsstring where
  "kelvin_line = [0x61, 0x212A, 0x62]"

section \<open>Tokens\<close>

lemma upper_plus32:
  "(0x41::16 word) \<le> c \<Longrightarrow> c \<le> 0x5A \<Longrightarrow> 0x61 \<le> c + 0x20 \<and> c + 0x20 \<le> 0x7A"
proof -
  assume a: "(0x41::16 word) \<le> c" and b: "c \<le> 0x5A"
  have 1: "65 \<le> unat c" using a by (simp add: word_le_nat_alt)
  have 2: "unat c \<le> 90" using b by (simp add: word_le_nat_alt)
  have 3: "unat (c + 0x20) = unat c + 32"
    using 2 by (simp add: unat_word_ariths)
  show ?thesis using 1 2 3 by (simp add: word_le_nat_alt)
qed

lemma is_word_char_lower_ascii: "is_word_char (lower_ascii c) = is_word_char c"
proof (cases "0x41 \<le> c \<and> c \<le> 0x5A")
  case True
  then show ?thesis using upper_plus32[of c] by (simp add: is_word_char_def lower_ascii_def)
next
  case False
  then show ?thesis by (auto simp: lower_ascii_def)
qed

lemma drop_nonword_tokens:
  "filter_Boolean (split_nonword_from [] (dropWhile (\<lambda>d. \<not> is_word_char d) cs))
     = filter_Boolean (split_nonword_from [] cs)"
  by (cases cs) (simp_all add: filter_Boolean_def)

lemma tokens_separator:
  "\<not> is_word_char c \<Longrightarrow>
   filter_Boolean (split_nonword_from p (c # cs))
     = filter_Boolean [p] @ filter_Boolean (split_nonword_from [] cs)"
  using drop_nonword_tokens[of cs] by (simp add: filter_Boolean_def)

lemma tokens_word:
  "is_word_char c \<Longrightarrow>
   filter_Boolean (split_nonword_from p (c # cs)) = filter_Boolean (split_nonword_from (p @ [c]) cs)"
  by simp

lemma tokens_append_separator:
  "\<not> is_word_char d \<Longrightarrow>
   filter_Boolean (split_nonword_from p (a @ d # b))
     = filter_Boolean (split_nonword_from p a) @ tokenize b"
proof (induction a arbitrary: p)
  case Nil
  then show ?case using tokens_separator[of d p b] by (simp add: tokenize_def split_nonword_def)
next
  case (Cons c cs)
  show ?case
  proof (cases "is_word_char c")
    case True
    then show ?thesis using Cons.IH[OF Cons.prems, of "p @ [c]"] by simp
  next
    case False
    have "filter_Boolean (split_nonword_from p ((c # cs) @ d # b))
        = filter_Boolean [p] @ filter_Boolean (split_nonword_from [] (cs @ d # b))"
      using tokens_separator[OF False, of p "cs @ d # b"] by simp
    also have "\<dots> = filter_Boolean [p] @ filter_Boolean (split_nonword_from [] cs) @ tokenize b"
      using Cons.IH[OF Cons.prems, of "[]"] by simp
    also have "\<dots> = filter_Boolean (split_nonword_from p (c # cs)) @ tokenize b"
      using tokens_separator[OF False, of p cs] by simp
    finally show ?thesis .
  qed
qed

lemma tokens_word_chars_from:
  "\<forall>c\<in>set p. is_word_char c \<Longrightarrow>
   \<forall>w\<in>set (filter_Boolean (split_nonword_from p s)). \<forall>c\<in>set w. is_word_char c"
proof (induction s arbitrary: p)
  case Nil
  then show ?case by (simp add: filter_Boolean_def)
next
  case (Cons c cs)
  show ?case
  proof (cases "is_word_char c")
    case True
    have "\<forall>d\<in>set (p @ [c]). is_word_char d" using Cons.prems True by simp
    from Cons.IH[OF this] show ?thesis by (simp only: tokens_word[OF True])
  next
    case False
    have "\<forall>w\<in>set (filter_Boolean [p]). \<forall>c\<in>set w. is_word_char c"
      using Cons.prems by (simp add: filter_Boolean_def)
    moreover have "\<forall>w\<in>set (filter_Boolean (split_nonword_from [] cs)). \<forall>c\<in>set w. is_word_char c"
      using Cons.IH[of "[]"] by simp
    ultimately show ?thesis by (simp only: tokens_separator[OF False] set_append ball_Un)
  qed
qed

lemma tokenize_word_chars: "w \<in> set (tokenize s) \<Longrightarrow> w \<noteq> [] \<and> (\<forall>c\<in>set w. is_word_char c)"
proof -
  assume w: "w \<in> set (tokenize s)"
  then have "w \<noteq> []" by (simp add: tokenize_def filter_Boolean_def)
  moreover have "\<forall>c\<in>set w. is_word_char c"
    using tokens_word_chars_from[of "[]" s] w by (simp add: tokenize_def split_nonword_def)
  ultimately show ?thesis by simp
qed

lemma tokens_map:
  assumes "\<And>c. is_word_char (f c) = is_word_char c"
  shows "filter_Boolean (split_nonword_from (map f p) (map f s))
           = map (map f) (filter_Boolean (split_nonword_from p s))"
proof (induction s arbitrary: p)
  case Nil
  then show ?case by (simp add: filter_Boolean_def)
next
  case (Cons c cs)
  show ?case
  proof (cases "is_word_char c")
    case True
    then have wf: "is_word_char (f c)" using assms[of c] by blast
    have "filter_Boolean (split_nonword_from (map f p) (map f (c # cs)))
        = filter_Boolean (split_nonword_from (map f (p @ [c])) (map f cs))"
      using tokens_word[OF wf, of "map f p" "map f cs"] by simp
    also have "\<dots> = map (map f) (filter_Boolean (split_nonword_from (p @ [c]) cs))"
      by (rule Cons.IH)
    also have "\<dots> = map (map f) (filter_Boolean (split_nonword_from p (c # cs)))"
      by (simp only: tokens_word[OF True])
    finally show ?thesis .
  next
    case False
    then have nf: "\<not> is_word_char (f c)" using assms[of c] by blast
    have "filter_Boolean (split_nonword_from (map f p) (map f (c # cs)))
        = filter_Boolean [map f p] @ filter_Boolean (split_nonword_from [] (map f cs))"
      using tokens_separator[OF nf, of "map f p" "map f cs"] by simp
    also have "\<dots> = map (map f) (filter_Boolean [p]) @ map (map f) (filter_Boolean (split_nonword_from [] cs))"
      using Cons.IH[of "[]"] by (simp add: filter_Boolean_def)
    also have "\<dots> = map (map f) (filter_Boolean (split_nonword_from p (c # cs)))"
      by (simp only: tokens_separator[OF False] map_append)
    finally show ?thesis .
  qed
qed

lemma tokenize_lines:
  "concat (map tokenize (split_lines_from p s)) = tokenize (p @ s)"
proof (induction s arbitrary: p)
  case Nil
  then show ?case by simp
next
  case (Cons c cs)
  show ?case
  proof (cases "c = LF")
    case True
    have "\<not> is_word_char LF" by (simp add: is_word_char_def LF_def)
    then have "tokenize (p @ LF # cs) = tokenize p @ tokenize cs"
      using tokens_append_separator[of LF "[]" p cs] by (simp add: tokenize_def split_nonword_def)
    then show ?thesis using True Cons.IH[of "[]"] by simp
  next
    case False
    then show ?thesis using Cons.IH[of "p @ [c]"] by simp
  qed
qed

lemma word_runs_unfold:
  "word_runs s = filter_Boolean [takeWhile is_word_char s] @ word_runs (dropWhile is_word_char s)"
  by (cases s) (simp_all add: filter_Boolean_def)

lemma tokens_word_runs:
  "filter_Boolean (split_nonword_from p s)
     = filter_Boolean [p @ takeWhile is_word_char s] @ word_runs (dropWhile is_word_char s)"
proof (induction s arbitrary: p)
  case Nil
  then show ?case by simp
next
  case (Cons c cs)
  show ?case
  proof (cases "is_word_char c")
    case True
    then show ?thesis using Cons.IH[of "p @ [c]"] by simp
  next
    case False
    have "filter_Boolean (split_nonword_from p (c # cs))
        = filter_Boolean [p] @ filter_Boolean (split_nonword_from [] cs)"
      by (rule tokens_separator[OF False])
    also have "\<dots> = filter_Boolean [p] @ filter_Boolean [takeWhile is_word_char cs]
                        @ word_runs (dropWhile is_word_char cs)"
      using Cons.IH[of "[]"] by simp
    also have "\<dots> = filter_Boolean [p] @ word_runs cs"
      using word_runs_unfold[of cs] by simp
    finally show ?thesis using False by simp
  qed
qed

lemma tokenize_word_runs: "tokenize s = word_runs s"
  using tokens_word_runs[of "[]" s] word_runs_unfold[of s]
  by (simp add: tokenize_def split_nonword_def)

lemma toLowerCase_unit_wise: "unit_wise s \<Longrightarrow> toLowerCase s = map lower_ascii s"
  by (induction s) (auto simp: unit_wise_def toLowerCase_def lower_unit_def lower_ascii_def)

lemma word_char_plain: "is_word_char c \<Longrightarrow> c \<noteq> 0x212A \<and> c \<noteq> 0x0130"
  by (auto simp: is_word_char_def)

lemma ascii_plain: "is_ascii c \<Longrightarrow> c \<noteq> 0x212A \<and> c \<noteq> 0x0130"
  by (auto simp: is_ascii_def)

lemma token_unit_wise: "w \<in> set (tokenize s) \<Longrightarrow> unit_wise w"
  using tokenize_word_chars[of w s] word_char_plain by (auto simp: unit_wise_def list_all_iff)

lemma ascii_unit_wise: "list_all is_ascii s \<Longrightarrow> unit_wise s"
  using ascii_plain by (auto simp: unit_wise_def list_all_iff)

lemma tokenize_lower_unit_wise:
  "unit_wise s \<Longrightarrow> tokenize (toLowerCase s) = map toLowerCase (tokenize s)"
proof -
  assume u: "unit_wise s"
  have "tokenize (map lower_ascii s) = map (map lower_ascii) (tokenize s)"
    using tokens_map[of lower_ascii "[]" s] is_word_char_lower_ascii
    by (simp add: tokenize_def split_nonword_def)
  moreover have "map (map lower_ascii) (tokenize s) = map toLowerCase (tokenize s)"
    using token_unit_wise[of _ s] toLowerCase_unit_wise by (simp cong: map_cong)
  ultimately show ?thesis using toLowerCase_unit_wise[OF u] by simp
qed

lemma tokenize_split_lines: "concat (map tokenize (split_lines s)) = tokenize s"
  using tokenize_lines[of "[]" s] by (simp add: split_lines_def)

section \<open>Lines and the console\<close>

lemma split_lines_from_append:
  "split_lines_from p (a @ LF # b) = split_lines_from p a @ split_lines_from [] b"
  by (induction a arbitrary: p) simp_all

lemma split_lines_snoc_LF: "split_lines (body @ [LF]) = split_lines body @ [[]]"
  using split_lines_from_append[of "[]" body "[]"] by (simp add: split_lines_def)

lemma length_split_lines_from:
  "length (split_lines_from p s) = Suc (length (filter (\<lambda>c. c = LF) s))"
  by (induction s arbitrary: p) simp_all

lemma print_loop:
  "fold (\<lambda>line. console_log (f line)) ls out = out @ map f ls"
  by (induction ls arbitrary: out) (simp_all add: console_log_def)

lemma printColoredLines_map:
  "printColoredLines content wordCount out
     = out @ map (coloredLine wordCount) (take 15 (split_lines content))"
  by (simp add: printColoredLines_def print_loop)


section \<open>The frequency table\<close>

lemma add_one_defined: "add_one x \<noteq> Undefined"
  by (cases "to_primitive x") (simp_all add: add_one_def)

lemma map_of_None_keys: "map_of t k = None \<longleftrightarrow> k \<notin> fst ` set t"
  by (simp add: map_of_eq_None_iff)

lemma get_after_count: "get_property (count_word w t) w \<noteq> Prim Undefined"
proof (cases "w \<in> fst ` set t")
  case True
  then show ?thesis
    by (simp add: count_word_def set_property_def get_property_def update_conv' add_one_defined)
next
  case False
  then have n: "map_of t w = None" by (simp add: map_of_None_keys)
  show ?thesis
  proof (cases "w = js ''__proto__''")
    case True
    have "js ''__proto__'' \<noteq> js ''constructor''" by (simp add: js_def)
    then show ?thesis using False n True
      by (simp add: count_word_def set_property_def get_property_def object_prototype_get_def)
  next
    case f: False
    then show ?thesis using False n
      by (simp add: count_word_def set_property_def get_property_def map_add_def add_one_defined)
  qed
qed

lemma get_other_count: "k \<noteq> w \<Longrightarrow> get_property (count_word w t) k = get_property t k"
  by (auto simp: count_word_def set_property_def get_property_def update_conv' map_add_def
           split: option.splits)

lemma get_counted:
  "k \<in> set ws \<or> get_property t k \<noteq> Prim Undefined \<Longrightarrow>
   get_property (fold count_word ws t) k \<noteq> Prim Undefined"
proof (induction ws arbitrary: t)
  case Nil
  then show ?case by simp
next
  case (Cons w ws)
  have "k \<in> set ws \<or> get_property (count_word w t) k \<noteq> Prim Undefined"
    using Cons.prems get_after_count[of w t] get_other_count[of k w t] by (cases "k = w") auto
  from Cons.IH[OF this] show ?case by simp
qed

lemma get_token: "k \<in> set (tokenize (toLowerCase content)) \<Longrightarrow>
   get_property (getWordCounts content) k \<noteq> Prim Undefined"
  using get_counted[of k "tokenize (toLowerCase content)" "[]"]
  by (simp add: getWordCounts_def tokenize_def)


lemma names_not_proto: "w \<notin> set object_prototype_names \<Longrightarrow> w \<noteq> js ''__proto__'' \<and> object_prototype_get w = Prim Undefined"
  by (auto simp: object_prototype_names_def object_prototype_get_def)

lemma count_word_new:
  assumes "w \<notin> set object_prototype_names" "map_of t w = None"
  shows "count_word w t = t @ [(w, Number (Finite 1))]"
proof -
  have k: "w \<notin> fst ` set t" using assms(2) by (simp add: map_of_None_keys)
  have "get_property t w = Prim Undefined"
    using assms names_not_proto[of w] by (simp add: get_property_def)
  then have "add_one (logical_or (get_property t w) (Prim (Number (Finite 0)))) = Number (Finite 1)"
    by (simp add: logical_or_def add_one_def)
  then show ?thesis using k names_not_proto[OF assms(1)]
    by (simp add: count_word_def set_property_def)
qed

lemma count_word_old:
  assumes "map_of t w = Some (Number (Finite (of_nat n)))" "0 < n"
  shows "count_word w t = AList.update w (Number (Finite (of_nat (Suc n)))) t"
proof -
  have k: "w \<in> fst ` set t" using map_of_SomeD[OF assms(1)] by force
  have "get_property t w = Prim (Number (Finite (of_nat n)))"
    using assms by (simp add: get_property_def)
  then have "add_one (logical_or (get_property t w) (Prim (Number (Finite 0))))
               = Number (Finite (of_nat (Suc n)))"
    using assms(2) by (simp add: logical_or_def add_one_def add.commute)
  then show ?thesis using k by (simp add: count_word_def set_property_def)
qed

lemma holds_counts_step:
  assumes "holds_counts t f" "w \<notin> set object_prototype_names"
  shows "holds_counts (count_word w t) (f(w := Suc (f w)))"
proof (cases "f w = 0")
  case True
  then have n: "map_of t w = None" using assms(1) by (simp add: holds_counts_def)
  then have k: "w \<notin> fst ` set t" by (simp add: map_of_None_keys)
  have e: "count_word w t = t @ [(w, Number (Finite 1))]"
    by (rule count_word_new[OF assms(2) n])
  show ?thesis using assms(1) k True
    by (auto simp: holds_counts_def e map_add_def)
next
  case False
  then have s: "map_of t w = Some (Number (Finite (of_nat (f w))))"
    using assms(1) by (simp add: holds_counts_def)
  have e: "count_word w t = AList.update w (Number (Finite (of_nat (Suc (f w))))) t"
    using count_word_old[OF s] False by simp
  show ?thesis using assms(1)
    by (auto simp: holds_counts_def e update_conv' distinct_update)
qed

lemma holds_counts_fold:
  "holds_counts t f \<Longrightarrow> \<forall>w\<in>set ws. w \<notin> set object_prototype_names \<Longrightarrow>
   holds_counts (fold count_word ws t) (\<lambda>k. f k + count_list ws k)"
proof (induction ws arbitrary: t f)
  case Nil
  then show ?case by simp
next
  case (Cons w ws)
  have "holds_counts (count_word w t) (f(w := Suc (f w)))"
    using holds_counts_step[OF Cons.prems(1)] Cons.prems(2) by simp
  moreover have "\<forall>v\<in>set ws. v \<notin> set object_prototype_names" using Cons.prems(2) by simp
  ultimately have "holds_counts (fold count_word ws (count_word w t))
                     (\<lambda>k. (f(w := Suc (f w))) k + count_list ws k)"
    by (rule Cons.IH)
  moreover have "(\<lambda>k. (f(w := Suc (f w))) k + count_list ws k) = (\<lambda>k. f k + count_list (w # ws) k)"
    by (auto simp: fun_eq_iff)
  ultimately show ?case by simp
qed

lemma holds_counts_empty: "holds_counts [] (\<lambda>k. 0)"
  by (simp add: holds_counts_def)

lemma getWordCounts_holds:
  "\<forall>w\<in>set (tokenize (toLowerCase content)). w \<notin> set object_prototype_names \<Longrightarrow>
   holds_counts (getWordCounts content) (count_list (tokenize (toLowerCase content)))"
  using holds_counts_fold[OF holds_counts_empty, of "tokenize (toLowerCase content)"]
  by (simp add: getWordCounts_def tokenize_def)

lemma holds_counts_keys: "holds_counts t f \<Longrightarrow> fst ` set t = {k. 0 < f k}"
proof -
  assume h: "holds_counts t f"
  have "k \<in> fst ` set t \<longleftrightarrow> 0 < f k" for k
  proof -
    have "k \<in> fst ` set t \<longleftrightarrow> map_of t k \<noteq> None" by (simp add: map_of_None_keys)
    also have "\<dots> \<longleftrightarrow> 0 < f k" using h by (simp add: holds_counts_def)
    finally show ?thesis .
  qed
  then show ?thesis by auto
qed


section \<open>Colour wrapping\<close>











section \<open>The classifier\<close>






lemma token_lower_ascii: "w \<in> set (tokenize s) \<Longrightarrow> toLowerCase w = map lower_ascii w"
  using token_unit_wise toLowerCase_unit_wise by blast

lemma coloredLine_spec:
  "coloredLine wordCount line
     = join [SP]
         (map (\<lambda>word. colorWord word (get_property wordCount (map lower_ascii word)))
            (word_runs line))
       @ [SP]"
proof -
  have e: "map (\<lambda>word. colorWord word (get_property wordCount (toLowerCase word))) (tokenize line)
      = map (\<lambda>word. colorWord word (get_property wordCount (map lower_ascii word))) (tokenize line)"
    by (rule map_cong) (simp_all add: token_lower_ascii)
  have "coloredLine wordCount line
      = join [SP]
          (map (\<lambda>word. colorWord word (get_property wordCount (toLowerCase word)))
             (tokenize line))
        @ [SP]"
    by (simp add: coloredLine_def tokenize_def)
  also have "\<dots> = join [SP]
          (map (\<lambda>word. colorWord word (get_property wordCount (map lower_ascii word)))
             (tokenize line))
        @ [SP]"
    by (simp only: e)
  finally show ?thesis by (simp only: tokenize_word_runs)
qed

lemma keys_count_word: "fst ` set t \<subseteq> fst ` set (count_word w t)"
  by (auto simp: count_word_def set_property_def dom_update)

lemma key_after_count: "w \<noteq> js ''__proto__'' \<Longrightarrow> w \<in> fst ` set (count_word w t)"
  by (auto simp: count_word_def set_property_def dom_update)

lemma key_counted:
  "k \<noteq> js ''__proto__'' \<Longrightarrow> k \<in> set ws \<or> k \<in> fst ` set t \<Longrightarrow>
   k \<in> fst ` set (fold count_word ws t)"
proof (induction ws arbitrary: t)
  case Nil
  then show ?case by simp
next
  case (Cons w ws)
  have "k \<in> set ws \<or> k \<in> fst ` set (count_word w t)"
    using Cons.prems key_after_count[of k t] keys_count_word[of t w] by (cases "k = w") auto
  from Cons.IH[OF Cons.prems(1) this] show ?case by simp
qed

lemma key_token:
  "k \<in> set (tokenize (toLowerCase content)) \<Longrightarrow> k \<noteq> js ''__proto__'' \<Longrightarrow>
   k \<in> fst ` set (getWordCounts content)"
  using key_counted[of k "tokenize (toLowerCase content)" "[]"]
  by (simp add: getWordCounts_def tokenize_def)

text \<open>
  A token of one of the lines that are printed, and the lookup of its lower-case form
  in the table of the whole content. If the lookup is \<open>undefined\<close>, that form is not
  among the tokens of the lower-cased content, and the tokens found line by line are
  not the tokens of the lower-cased content. For a content of ASCII characters the two
  tokenizations agree, the lookup is never \<open>undefined\<close>, and every form but
  \<open>__proto__\<close> is a key of the table.
\<close>

lemma undefined_lookup_disagree:
  "line \<in> set (take 15 (split_lines content)) \<Longrightarrow> w \<in> set (tokenize line) \<Longrightarrow>
   (get_property (getWordCounts content) (toLowerCase w) = Prim Undefined \<longrightarrow>
      toLowerCase w \<notin> set (tokenize (toLowerCase content)) \<and>
      concat (map (\<lambda>l. map toLowerCase (tokenize l)) (split_lines content))
        \<noteq> tokenize (toLowerCase content)) \<and>
   (list_all is_ascii content \<longrightarrow>
      concat (map (\<lambda>l. map toLowerCase (tokenize l)) (split_lines content))
        = tokenize (toLowerCase content) \<and>
      toLowerCase w \<in> set (tokenize (toLowerCase content)) \<and>
      (toLowerCase w \<noteq> js ''__proto__'' \<longrightarrow>
         toLowerCase w \<in> fst ` set (getWordCounts content)) \<and>
      get_property (getWordCounts content) (toLowerCase w) \<noteq> Prim Undefined)"
proof -
  assume l: "line \<in> set (take 15 (split_lines content))" and w: "w \<in> set (tokenize line)"
  let ?lines = "concat (map (\<lambda>l. map toLowerCase (tokenize l)) (split_lines content))"
  have l': "line \<in> set (split_lines content)" using l by (rule in_set_takeD)
  have m: "toLowerCase w \<in> set ?lines" using l' w by auto
  have 1: "get_property (getWordCounts content) (toLowerCase w) = Prim Undefined \<longrightarrow>
      toLowerCase w \<notin> set (tokenize (toLowerCase content)) \<and>
      ?lines \<noteq> tokenize (toLowerCase content)"
  proof
    assume u: "get_property (getWordCounts content) (toLowerCase w) = Prim Undefined"
    have n: "toLowerCase w \<notin> set (tokenize (toLowerCase content))"
      using get_token[of "toLowerCase w" content] u by blast
    have "?lines \<noteq> tokenize (toLowerCase content)"
    proof
      assume "?lines = tokenize (toLowerCase content)"
      then have "toLowerCase w \<in> set (tokenize (toLowerCase content))"
        using m by (simp only:)
      then show False using n by simp
    qed
    then show "toLowerCase w \<notin> set (tokenize (toLowerCase content)) \<and>
      ?lines \<noteq> tokenize (toLowerCase content)"
      using n by simp
  qed
  have e: "?lines = map toLowerCase (tokenize content)"
  proof -
    have "concat (map (\<lambda>l. map toLowerCase (tokenize l)) ls)
            = map toLowerCase (concat (map tokenize ls))" for ls
      by (induction ls) simp_all
    then show ?thesis using tokenize_split_lines[of content] by simp
  qed
  have 2: "list_all is_ascii content \<longrightarrow>
      ?lines = tokenize (toLowerCase content) \<and>
      toLowerCase w \<in> set (tokenize (toLowerCase content)) \<and>
      (toLowerCase w \<noteq> js ''__proto__'' \<longrightarrow>
         toLowerCase w \<in> fst ` set (getWordCounts content)) \<and>
      get_property (getWordCounts content) (toLowerCase w) \<noteq> Prim Undefined"
  proof
    assume a: "list_all is_ascii content"
    have eq: "?lines = tokenize (toLowerCase content)"
      using e tokenize_lower_unit_wise[OF ascii_unit_wise[OF a]] by simp
    then have "toLowerCase w \<in> set (tokenize (toLowerCase content))" using m by (simp only:)
    then show "?lines = tokenize (toLowerCase content) \<and>
      toLowerCase w \<in> set (tokenize (toLowerCase content)) \<and>
      (toLowerCase w \<noteq> js ''__proto__'' \<longrightarrow>
         toLowerCase w \<in> fst ` set (getWordCounts content)) \<and>
      get_property (getWordCounts content) (toLowerCase w) \<noteq> Prim Undefined"
      using eq get_token key_token by blast
  qed
  show ?thesis using 1 2 by blast
qed

section \<open>The claims\<close>

subsection \<open>C1\<close>

text \<open>
  C1. The claim is that, for every input, the table has no entry with a count below 1
  and its counts sum to the number of tokens of the input. On the input \<open>__proto__\<close>
  the tokenizer gives one token and \<open>getWordCounts\<close> returns the table without any
  entry; on the input \<open>constructor\<close> the entry is the string
  \<open>"function Object() { [native code] }1"\<close> and no count at all.
\<close>

theorem C1_inherited_names_miscounted:
  "getWordCounts (js ''__proto__'') = [] \<and>
   tokenize (js ''__proto__'') = [js ''__proto__''] \<and>
   getWordCounts (js ''constructor'')
     = [(js ''constructor'', String (js ''function Object() { [native code] }1''))]"
  by code_simp

subsection \<open>C2\<close>



subsection \<open>C3\<close>

text \<open>
  C3. Every line that is printed is built from the tokens of the line in their
  original case (its maximal runs of word characters): each token is given to
  \<open>colorWord\<close> with the value that the table has for the token in lower case
  (\<open>A..Z\<close> replaced by \<open>a..z\<close>), the results are joined by one space, and one space
  is appended. The line \<open>"cat dog cat"\<close> against the table \<open>{cat: 2, dog: 1}\<close> is
  printed as the three tokens in the colours of Common, Rare, Common, which is
  \<open>"cat dog cat "\<close> under the colour wrapping. The line \<open>"Cat, DOG  cAt!"\<close> against
  the same table has the same colours on \<open>Cat\<close>, \<open>DOG\<close>, \<open>cAt\<close>, and a table
  with the key \<open>Cat\<close> alone has no count for the token \<open>Cat\<close>.
\<close>

theorem C3_rendered_line:
  "printColoredLines content wordCount out
     = out @ map (\<lambda>line.
                    join [SP]
                      (map (\<lambda>word. colorWord word (get_property wordCount (map lower_ascii word)))
                         (word_runs line))
                    @ [SP])
               (take 15 (split_lines content)) \<and>
   printColoredLines (js ''cat dog cat'')
       [(js ''cat'', Number (Finite 2)), (js ''dog'', Number (Finite 1))] []
     = [chalk (bucket_color Common) (js ''cat'') @ js '' '' @
        chalk (bucket_color Rare) (js ''dog'') @ js '' '' @
        chalk (bucket_color Common) (js ''cat'') @ js '' ''] \<and>
   strip_color
       (chalk (bucket_color Common) (js ''cat'') @ js '' '' @
        chalk (bucket_color Rare) (js ''dog'') @ js '' '' @
        chalk (bucket_color Common) (js ''cat'') @ js '' '')
     = js ''cat dog cat '' \<and>
   printColoredLines (js ''Cat, DOG  cAt!'')
       [(js ''cat'', Number (Finite 2)), (js ''dog'', Number (Finite 1))] []
     = [chalk (bucket_color Common) (js ''Cat'') @ js '' '' @
        chalk (bucket_color Rare) (js ''DOG'') @ js '' '' @
        chalk (bucket_color Common) (js ''cAt'') @ js '' ''] \<and>
   printColoredLines (js ''Cat'') [(js ''Cat'', Number (Finite 1))] []
     = [chalk (bucket_color Frequent) (js ''Cat'') @ js '' '']"
proof -
  have 1: "printColoredLines content wordCount out
     = out @ map (\<lambda>line.
                    join [SP]
                      (map (\<lambda>word. colorWord word (get_property wordCount (map lower_ascii word)))
                         (word_runs line))
                    @ [SP])
               (take 15 (split_lines content))"
    by (simp add: printColoredLines_map coloredLine_spec)
  have 2: "printColoredLines (js ''cat dog cat'')
       [(js ''cat'', Number (Finite 2)), (js ''dog'', Number (Finite 1))] []
     = [chalk (bucket_color Common) (js ''cat'') @ js '' '' @
        chalk (bucket_color Rare) (js ''dog'') @ js '' '' @
        chalk (bucket_color Common) (js ''cat'') @ js '' '']"
    by code_simp
  have 3: "strip_color
       (chalk (bucket_color Common) (js ''cat'') @ js '' '' @
        chalk (bucket_color Rare) (js ''dog'') @ js '' '' @
        chalk (bucket_color Common) (js ''cat'') @ js '' '')
     = js ''cat dog cat ''"
    by code_simp
  have 4: "printColoredLines (js ''Cat, DOG  cAt!'')
       [(js ''cat'', Number (Finite 2)), (js ''dog'', Number (Finite 1))] []
     = [chalk (bucket_color Common) (js ''Cat'') @ js '' '' @
        chalk (bucket_color Rare) (js ''DOG'') @ js '' '' @
        chalk (bucket_color Common) (js ''cAt'') @ js '' '']"
    by code_simp
  have 5: "printColoredLines (js ''Cat'') [(js ''Cat'', Number (Finite 1))] []
     = [chalk (bucket_color Frequent) (js ''Cat'') @ js '' '']"
    by code_simp
  show ?thesis using 1 2 3 4 5 by blast
qed


subsection \<open>C4\<close>

text \<open>
  C4. \<open>printColoredLines\<close> prints as many lines as the content has, and 15 when it
  has more; the lines of a content are one more than its line feeds. The line printed
  at each position is the rendering of the input line at that position. Two contents
  with the same first 15 lines give the same output: nothing after the 15th line is
  looked at.
\<close>

theorem C4_first_fifteen_lines:
  "length (printColoredLines content wordCount []) = min 15 (length (split_lines content)) \<and>
   length (split_lines content) = Suc (length (filter (\<lambda>c. c = LF) content)) \<and>
   (\<forall>i < min 15 (length (split_lines content)).
      printColoredLines content wordCount [] ! i = coloredLine wordCount (split_lines content ! i)) \<and>
   (take 15 (split_lines content) = take 15 (split_lines other) \<longrightarrow>
      printColoredLines content wordCount out = printColoredLines other wordCount out)"
proof -
  have 1: "length (printColoredLines content wordCount []) = min 15 (length (split_lines content))"
    by (simp add: printColoredLines_map min.commute)
  have 2: "length (split_lines content) = Suc (length (filter (\<lambda>c. c = LF) content))"
    by (simp add: split_lines_def length_split_lines_from)
  have 3: "\<forall>i < min 15 (length (split_lines content)).
      printColoredLines content wordCount [] ! i = coloredLine wordCount (split_lines content ! i)"
    by (simp add: printColoredLines_map)
  have 4: "take 15 (split_lines content) = take 15 (split_lines other) \<longrightarrow>
      printColoredLines content wordCount out = printColoredLines other wordCount out"
    by (simp add: printColoredLines_map)
  show ?thesis using 1 2 3 4 by blast
qed

text \<open>A file of twenty lines, one of sixteen with the same first 15, one of three.\<close>

theorem C4_first_fifteen_lines_witness:
  "length (printColoredLines twenty_lines [] []) = 15 \<and>
   length (split_lines twenty_lines) = 20 \<and>
   14 < min 15 (length (split_lines twenty_lines)) \<and>
   printColoredLines twenty_lines [] [] ! 14 = coloredLine [] (js ''l15'') \<and>
   take 15 (split_lines twenty_lines) = take 15 (split_lines sixteen_lines) \<and>
   printColoredLines twenty_lines [] [] = printColoredLines sixteen_lines [] [] \<and>
   length (printColoredLines three_lines [] []) = 3"
proof -
  have a: "split_lines twenty_lines
     = [js ''l1'', js ''l2'', js ''l3'', js ''l4'', js ''l5'', js ''l6'', js ''l7'', js ''l8'',
        js ''l9'', js ''l10'', js ''l11'', js ''l12'', js ''l13'', js ''l14'', js ''l15'',
        js ''l16'', js ''l17'', js ''l18'', js ''l19'', js ''l20'']"
    by code_simp
  have b: "take 15 (split_lines twenty_lines) = take 15 (split_lines sixteen_lines)"
    by code_simp
  have c: "length (split_lines three_lines) = 3" by code_simp
  have l: "length (split_lines twenty_lines) = 20" using a by simp
  have i: "14 < min 15 (length (split_lines twenty_lines))" using l by simp
  have n: "split_lines twenty_lines ! 14 = js ''l15''" using a by simp
  note t = C4_first_fifteen_lines[of twenty_lines "[]" sixteen_lines "[]"]
  have 1: "length (printColoredLines twenty_lines [] []) = 15" using t l by simp
  have 2: "printColoredLines twenty_lines [] [] ! 14 = coloredLine [] (js ''l15'')"
    using t i n by simp
  have 3: "printColoredLines twenty_lines [] [] = printColoredLines sixteen_lines [] []"
    using t b by blast
  have 4: "length (printColoredLines three_lines [] []) = 3"
    using C4_first_fifteen_lines[of three_lines "[]" three_lines "[]"] c by simp
  show ?thesis using 1 2 3 4 b l i by blast
qed

subsection \<open>C5\<close>


subsection \<open>C6\<close>

text \<open>
  C6, as amended. When the content ends in a line feed and has at most 15 lines, the
  empty piece after the last line feed is a line of its own, and it is printed as the
  line that holds no token and the one trailing space.
\<close>

theorem C6_trailing_newline_line:
  "content = body @ [LF] \<Longrightarrow> length (split_lines content) \<le> 15 \<Longrightarrow>
   last (split_lines content) = [] \<and>
   length (split_lines content) = Suc (length (split_lines body)) \<and>
   printColoredLines content wordCount out = printColoredLines body wordCount out @ [[SP]] \<and>
   last (printColoredLines content wordCount out) = [SP]"
proof -
  assume c: "content = body @ [LF]" and n: "length (split_lines content) \<le> 15"
  have s: "split_lines content = split_lines body @ [[]]"
    using c by (simp add: split_lines_snoc_LF)
  have e: "coloredLine wordCount [] = [SP]"
    by (simp add: coloredLine_def split_nonword_def filter_Boolean_def)
  have "take 15 (split_lines content) = take 15 (split_lines body) @ [[]]"
    using s n by simp
  then have p: "printColoredLines content wordCount out
                  = printColoredLines body wordCount out @ [[SP]]"
    by (simp add: printColoredLines_map e)
  show ?thesis using s p by simp
qed

text \<open>The content \<open>"a\n"\<close>.\<close>

theorem C6_trailing_newline_line_witness:
  "js ''a\<newline>'' = js ''a'' @ [LF] \<and> length (split_lines (js ''a\<newline>'')) \<le> 15 \<and>
   last (split_lines (js ''a\<newline>'')) = [] \<and>
   printColoredLines (js ''a\<newline>'') (getWordCounts (js ''a\<newline>'')) []
     = printColoredLines (js ''a'') (getWordCounts (js ''a\<newline>'')) [] @ [[SP]] \<and>
   last (printColoredLines (js ''a\<newline>'') (getWordCounts (js ''a\<newline>'')) []) = [SP]"
proof -
  have c: "js ''a\<newline>'' = js ''a'' @ [LF]" by (simp add: js_def LF_def)
  have n: "length (split_lines (js ''a\<newline>'')) \<le> 15" by code_simp
  show ?thesis
    using c n C6_trailing_newline_line[OF c n, of "getWordCounts (js ''a\<newline>'')" "[]"]
    by simp
qed

text \<open>
  C6 as it is written has the trailing line printed as an empty line. For the content
  \<open>"a\n"\<close> the second line printed is \<open>" "\<close>.
\<close>

theorem C6_empty_line_counterexample:
  "printColoredLines (js ''a\<newline>'') (getWordCounts (js ''a\<newline>'')) []
     = [chalk Blue (js ''a'') @ js '' '', js '' ''] \<and>
   last (printColoredLines (js ''a\<newline>'') (getWordCounts (js ''a\<newline>'')) []) \<noteq> []"
  by code_simp

subsection \<open>C7\<close>

text \<open>
  C7. When reading \<open>declaration.txt\<close> fails, \<open>readFileContent\<close> fails with that
  error and \<open>processFile\<close> ends with the same error, once, and nothing has been
  printed: the console is as it was before the call.
\<close>

theorem C7_missing_file_fails:
  "readFileSync fs (js ''declaration.txt'') = Inl e \<Longrightarrow>
   readFileContent fs = Inl e \<and> processFile fs out = (Inl e, out)"
  by (simp add: readFileContent_def processFile_def)

text \<open>The file system without any file.\<close>

theorem C7_missing_file_fails_witness:
  "readFileSync (\<lambda>path. Inl ENOENT) (js ''declaration.txt'') = Inl ENOENT \<and>
   processFile (\<lambda>path. Inl ENOENT) [] = (Inl ENOENT, [])"
proof -
  have h: "readFileSync (\<lambda>path. Inl ENOENT) (js ''declaration.txt'') = Inl ENOENT"
    by (simp add: readFileSync_def)
  show ?thesis using h C7_missing_file_fails[OF h, of "[]"] by simp
qed

subsection \<open>C8\<close>

text \<open>
  C8. The claim has, for an input of ASCII characters, the lower-case form of every
  token that is printed found in the table. The input \<open>__proto__\<close> is ASCII and its
  one line has the one token \<open>__proto__\<close>; the two tokenizations agree on it. The
  table of the input has no entry, so the token is not a key of it; the lookup gives
  \<open>Object.prototype\<close>, and the token is printed in red.
\<close>

theorem C8_proto_key_absent:
  "list_all is_ascii (js ''__proto__'') \<and>
   js ''__proto__'' \<in> set (take 15 (split_lines (js ''__proto__''))) \<and>
   js ''__proto__'' \<in> set (tokenize (js ''__proto__'')) \<and>
   toLowerCase (js ''__proto__'') = js ''__proto__'' \<and>
   getWordCounts (js ''__proto__'') = [] \<and>
   map_of (getWordCounts (js ''__proto__'')) (toLowerCase (js ''__proto__'')) = None \<and>
   concat (map (\<lambda>l. map toLowerCase (tokenize l)) (split_lines (js ''__proto__'')))
     = tokenize (toLowerCase (js ''__proto__'')) \<and>
   get_property (getWordCounts (js ''__proto__'')) (toLowerCase (js ''__proto__''))
     = ObjectPrototype \<and>
   printColoredLines (js ''__proto__'') (getWordCounts (js ''__proto__'')) []
     = [chalk Red (js ''__proto__'') @ js '' '']"
  by code_simp


subsection \<open>C9\<close>

text \<open>
  C9, as amended. Take an input that has neither U+212A nor U+0130, and whose tokens in
  lower case (\<open>A..Z\<close> replaced by \<open>a..z\<close>) are not names of properties that plain
  objects inherit. The keys of its table are exactly those lower-cased tokens, each key
  once, and the value of each key is the number of occurrences of that token, a
  positive integer.
\<close>

theorem C9_counts_exact:
  "unit_wise content \<Longrightarrow>
   \<forall>w\<in>set (map (map lower_ascii) (word_runs content)). w \<notin> set object_prototype_names \<Longrightarrow>
   fst ` set (getWordCounts content) = set (map (map lower_ascii) (word_runs content)) \<and>
   distinct (map fst (getWordCounts content)) \<and>
   (\<forall>k\<in>set (map (map lower_ascii) (word_runs content)).
      map_of (getWordCounts content) k
        = Some (Number (Finite (of_nat
            (count_list (map (map lower_ascii) (word_runs content)) k)))) \<and>
      0 < count_list (map (map lower_ascii) (word_runs content)) k)"
proof -
  assume u: "unit_wise content"
    and a: "\<forall>w\<in>set (map (map lower_ascii) (word_runs content)). w \<notin> set object_prototype_names"
  let ?ws = "tokenize (toLowerCase content)"
  have "map toLowerCase (tokenize content) = map (map lower_ascii) (tokenize content)"
    by (rule map_cong) (simp_all add: token_lower_ascii)
  then have e: "?ws = map (map lower_ascii) (word_runs content)"
    using tokenize_lower_unit_wise[OF u] by (simp only: tokenize_word_runs)
  have a': "\<forall>w\<in>set ?ws. w \<notin> set object_prototype_names" using a by (simp only: e)
  have h: "holds_counts (getWordCounts content) (count_list ?ws)"
    by (rule getWordCounts_holds[OF a'])
  have pos: "0 < count_list ?ws k \<longleftrightarrow> k \<in> set ?ws" for k
    using count_list_0_iff[of ?ws k] by auto
  have 1: "fst ` set (getWordCounts content) = set ?ws"
    using holds_counts_keys[OF h] pos by auto
  have 2: "distinct (map fst (getWordCounts content))"
    using h by (simp add: holds_counts_def)
  have 3: "\<forall>k\<in>set ?ws. map_of (getWordCounts content) k
        = Some (Number (Finite (of_nat (count_list ?ws k)))) \<and> 0 < count_list ?ws k"
    using h pos by (simp add: holds_counts_def)
  show ?thesis using 1 2 3 unfolding e by blast
qed

text \<open>The input \<open>"The cat and the hat"\<close>.\<close>

theorem C9_counts_exact_witness:
  "unit_wise (js ''The cat and the hat'') \<and>
   list_all (\<lambda>w. w \<notin> set object_prototype_names)
     (map (map lower_ascii) (word_runs (js ''The cat and the hat''))) \<and>
   map (map lower_ascii) (word_runs (js ''The cat and the hat''))
     = [js ''the'', js ''cat'', js ''and'', js ''the'', js ''hat''] \<and>
   fst ` set (getWordCounts (js ''The cat and the hat''))
     = {js ''the'', js ''cat'', js ''and'', js ''hat''} \<and>
   map_of (getWordCounts (js ''The cat and the hat'')) (js ''the'') = Some (Number (Finite 2))"
proof -
  have t: "map (map lower_ascii) (word_runs (js ''The cat and the hat''))
             = [js ''the'', js ''cat'', js ''and'', js ''the'', js ''hat'']"
    by code_simp
  have n: "list_all (\<lambda>w. w \<notin> set object_prototype_names)
             (map (map lower_ascii) (word_runs (js ''The cat and the hat'')))"
    by code_simp
  have u: "unit_wise (js ''The cat and the hat'')" by code_simp
  have h: "\<forall>w\<in>set (map (map lower_ascii) (word_runs (js ''The cat and the hat''))).
             w \<notin> set object_prototype_names"
    using n by (simp only: list_all_iff)
  have c: "count_list [js ''the'', js ''cat'', js ''and'', js ''the'', js ''hat''] (js ''the'') = 2"
    by code_simp
  note r = C9_counts_exact[OF u h]
  have 1: "fst ` set (getWordCounts (js ''The cat and the hat''))
     = {js ''the'', js ''cat'', js ''and'', js ''hat''}"
    using r unfolding t by auto
  have "js ''the'' \<in> set (map (map lower_ascii) (word_runs (js ''The cat and the hat'')))"
    unfolding t by simp
  with r have "map_of (getWordCounts (js ''The cat and the hat'')) (js ''the'')
     = Some (Number (Finite (of_nat (count_list
          (map (map lower_ascii) (word_runs (js ''The cat and the hat''))) (js ''the'')))))"
    by blast
  then have 2: "map_of (getWordCounts (js ''The cat and the hat'')) (js ''the'') = Some (Number (Finite 2))"
    unfolding t c by simp
  show ?thesis using u n t 1 2 by blast
qed

text \<open>
  C9 as it is written is about every input whose lower-cased tokens avoid the inherited
  names. The line \<open>a\<close>, Kelvin sign, \<open>b\<close> has the lower-cased tokens \<open>a\<close> and
  \<open>b\<close>, and the one key of its table is \<open>akb\<close>. The input that is U+0130 alone has no
  token, and its table has the key \<open>i\<close>.
\<close>

theorem C9_kelvin_counterexample:
  "map toLowerCase (tokenize kelvin_line) = [js ''a'', js ''b''] \<and>
   list_all (\<lambda>w. w \<notin> set object_prototype_names) (map toLowerCase (tokenize kelvin_line)) \<and>
   getWordCounts kelvin_line = [(js ''akb'', Number (Finite 1))] \<and>
   fst ` set (getWordCounts kelvin_line) \<noteq> set (map toLowerCase (tokenize kelvin_line)) \<and>
   tokenize [0x0130] = [] \<and>
   getWordCounts [0x0130] = [(js ''i'', Number (Finite 1))]"
proof -
  have 1: "map toLowerCase (tokenize kelvin_line) = [js ''a'', js ''b'']" by code_simp
  have 2: "list_all (\<lambda>w. w \<notin> set object_prototype_names) (map toLowerCase (tokenize kelvin_line))"
    by code_simp
  have 3: "getWordCounts kelvin_line = [(js ''akb'', Number (Finite 1))]" by code_simp
  have 4: "fst ` set (getWordCounts kelvin_line) \<noteq> set (map toLowerCase (tokenize kelvin_line))"
    unfolding 1 3 by (simp add: js_def)
  have 5: "tokenize [0x0130] = []" by code_simp
  have 6: "getWordCounts [0x0130] = [(js ''i'', Number (Finite 1))]" by code_simp
  show ?thesis using 1 2 3 4 5 6 by blast
qed


subsection \<open>C10\<close>

text \<open>
  C10. Counting the input \<open>"Hello, hello world!"\<close> gives the table with the two
  entries \<open>hello: 2\<close> and \<open>world: 1\<close>, the tokens folded to lower case.
\<close>

theorem C10_hello_world_counts:
  "getWordCounts (js ''Hello, hello world!'')
     = [(js ''hello'', Number (Finite 2)), (js ''world'', Number (Finite 1))]"
  by code_simp

end
